theory Spec2Isabelle
  imports Main "HOL-Library.List_Lexorder"
begin

section \<open>Strings\<close>

text \<open>
  A Python \<open>str\<close> is a sequence of Unicode code points, compared code point by code
  point; a JavaScript string is a sequence of UTF-16 code units. Both are modelled as
  lists of natural numbers, ordered lexicographically (a proper prefix is smaller),
  which is the order Python's \<open>sorted\<close> uses on strings. \<open>json.dumps\<close> hands the
  Python strings to the page; on code points below the surrogate range the two
  encodings agree, and the page's strings are taken to be the Python ones.
\<close>

type_synonym str = "nat list"

definition lit :: "string \<Rightarrow> str" where
  \<comment> \<open>An ASCII literal of the source, as code points.\<close>
  "lit s = map of_char s"

definition isspace :: "nat \<Rightarrow> bool" where
  \<comment> \<open>The code points \<open>str.strip()\<close> removes: U+0009..U+000D, U+001C..U+0020, U+0085,
      U+00A0, U+1680, U+2000..U+200A, U+2028, U+2029, U+202F, U+205F, U+3000.\<close>
  "isspace c \<longleftrightarrow>
     (9 \<le> c \<and> c \<le> 13) \<or> (28 \<le> c \<and> c \<le> 32) \<or> c = 133 \<or> c = 160 \<or> c = 5760 \<or>
     (8192 \<le> c \<and> c \<le> 8202) \<or> c = 8232 \<or> c = 8233 \<or> c = 8239 \<or> c = 8287 \<or>
     c = 12288"

definition strip :: "str \<Rightarrow> str" where
  \<comment> \<open>\<open>s.strip()\<close>: leading and trailing whitespace removed.\<close>
  "strip s = rev (dropWhile isspace (rev (dropWhile isspace s)))"

definition comma :: nat where
  "comma = 44"

fun split_on :: "nat \<Rightarrow> str \<Rightarrow> str list" where
  \<comment> \<open>\<open>s.split(sep)\<close> for a one-character separator: never the empty list, and
      \<open>''.split(',')\<close> is \<open>['']\<close>.\<close>
  "split_on sep [] = [[]]"
| "split_on sep (c # cs) =
     (if c = sep then [] # split_on sep cs
      else (case split_on sep cs of [] \<Rightarrow> [[c]] | p # ps \<Rightarrow> (c # p) # ps))"

text \<open>
  \<open>String.prototype.toLowerCase\<close> is the engine's: it decodes the code units into
  code points, maps each code point by the Unicode Character Database, and encodes
  the result. The database is not part of the program and differs between engines,
  so it is a parameter: the simple lowercase mapping and the properties Cased and
  Case_Ignorable. What does not depend on the database is written out: the mapping
  of Basic Latin, the two code points that SpecialCasing treats apart (U+0130, which
  becomes two code points, and U+03A3, whose lowercase depends on its neighbours),
  and the surrogate pairs.
\<close>

record casing =
  lower_of :: "nat \<Rightarrow> nat"
  cased :: "nat \<Rightarrow> bool"
  case_ignorable :: "nat \<Rightarrow> bool"

definition lower_cp :: "casing \<Rightarrow> nat \<Rightarrow> nat" where
  \<comment> \<open>The simple lowercase mapping of a code point.\<close>
  "lower_cp ucd c =
     (if c < 128 then (if 65 \<le> c \<and> c \<le> 90 then c + 32 else c) else lower_of ucd c)"

fun code_points :: "str \<Rightarrow> nat list" where
  \<comment> \<open>A high surrogate followed by a low one is one code point; any other code unit
      is a code point by itself.\<close>
  "code_points [] = []"
| "code_points [c] = [c]"
| "code_points (h # l # rest) =
     (if 55296 \<le> h \<and> h < 56320 \<and> 56320 \<le> l \<and> l < 57344
      then (65536 + (h - 55296) * 1024 + (l - 56320)) # code_points rest
      else h # code_points (l # rest))"

definition utf16 :: "nat \<Rightarrow> str" where
  "utf16 cp =
     (if cp < 65536 then [cp]
      else [55296 + (cp - 65536) div 1024, 56320 + (cp - 65536) mod 1024])"

fun next_is_cased :: "casing \<Rightarrow> nat list \<Rightarrow> bool" where
  \<comment> \<open>Walking away from a sigma: the case-ignorable code points are skipped (also the
      cased ones among them), and the first other code point is asked whether it is
      cased.\<close>
  "next_is_cased ucd [] = False"
| "next_is_cased ucd (c # cs) =
     (if case_ignorable ucd c then next_is_cased ucd cs else cased ucd c)"

definition final_sigma :: "casing \<Rightarrow> nat list \<Rightarrow> nat list \<Rightarrow> bool" where
  \<comment> \<open>The condition Final_Sigma: \<open>before\<close> are the code points that precede the sigma,
      the nearest first, \<open>after\<close> those that follow it.\<close>
  "final_sigma ucd before after \<longleftrightarrow> next_is_cased ucd before \<and> \<not> next_is_cased ucd after"

fun lower_from :: "casing \<Rightarrow> nat list \<Rightarrow> nat list \<Rightarrow> str" where
  \<comment> \<open>\<open>before\<close> holds the code points already passed, the nearest first.\<close>
  "lower_from ucd before [] = []"
| "lower_from ucd before (c # cs) =
     (if c = 931 then utf16 (if final_sigma ucd before cs then 962 else 963)
      else if c = 304 then [105, 775]
      else utf16 (lower_cp ucd c)) @ lower_from ucd (c # before) cs"

definition toLowerCase :: "casing \<Rightarrow> str \<Rightarrow> str" where
  "toLowerCase ucd s = lower_from ucd [] (code_points s)"

fun is_prefix :: "str \<Rightarrow> str \<Rightarrow> bool" where
  "is_prefix [] ys = True"
| "is_prefix (x # xs) [] = False"
| "is_prefix (x # xs) (y # ys) = (x = y \<and> is_prefix xs ys)"

fun str_includes :: "str \<Rightarrow> str \<Rightarrow> bool" where
  \<comment> \<open>\<open>s.includes(t)\<close> on strings: \<open>t\<close> occurs in \<open>s\<close> at some position.\<close>
  "str_includes [] t = (t = [])"
| "str_includes (c # cs) t = (is_prefix t (c # cs) \<or> str_includes cs t)"

section \<open>Extraction: \<open>parse_csv\<close> and \<open>get_all_tags\<close>\<close>

type_synonym row = "str list"

record drill =
  name :: str
  link :: str
  tags :: "str list"
  theme :: str
  sub_category :: str

datatype error = StopIteration

definition parse_categories :: "str \<Rightarrow> str list" where
  \<comment> \<open>\<open>themes = []; if theme: themes = [t.strip() for t in theme.split(',') if t.strip()]\<close>,
      and the same for \<open>sub_category\<close>.\<close>
  "parse_categories field =
     (if field \<noteq> [] then map strip (filter (\<lambda>t. strip t \<noteq> []) (split_on comma field))
      else [])"

definition make_drill :: "row \<Rightarrow> drill" where
  \<comment> \<open>The body of the loop of \<open>parse_csv\<close> for an accepted row. The set \<open>tags\<close> is
      filled by the two \<open>for\<close> loops, and \<open>sorted(list(tags))\<close> is its sorted
      enumeration.\<close>
  "make_drill row =
     (let drill_name = strip (row ! 0);
          theme = (if length row > 2 then strip (row ! 2) else []);
          sub_category = (if length row > 3 then strip (row ! 3) else []);
          link = (if length row > 4 then strip (row ! 4) else []);
          themes = parse_categories theme;
          sub_categories = parse_categories sub_category;
          tags = fold insert sub_categories (fold insert themes {})
      in \<lparr>name = drill_name, link = link, tags = sorted_list_of_set tags,
          theme = theme, sub_category = sub_category\<rparr>)"

definition accepted :: "row \<Rightarrow> bool" where
  \<comment> \<open>\<open>len(row) >= 5 and row[0].strip()\<close>; the second test is reached only when the
      first holds.\<close>
  "accepted row = (if length row \<ge> 5 then strip (row ! 0) \<noteq> [] else False)"

fun parse_rows :: "drill list \<Rightarrow> row list \<Rightarrow> drill list" where
  \<comment> \<open>\<open>for row in reader: if ...: ...; drills.append(drill)\<close>\<close>
  "parse_rows drills [] = drills"
| "parse_rows drills (row # rest) =
     (if accepted row then parse_rows (drills @ [make_drill row]) rest
      else parse_rows drills rest)"

definition parse_csv :: "row list \<Rightarrow> error + drill list" where
  \<comment> \<open>The argument is the row sequence \<open>csv.reader\<close> yields for the file. \<open>next(reader)\<close>
      takes the header row and raises \<open>StopIteration\<close> when there is none.\<close>
  "parse_csv reader =
     (case reader of
        [] \<Rightarrow> Inl StopIteration
      | header # rows \<Rightarrow> Inr (parse_rows [] rows))"

definition get_all_tags :: "drill list \<Rightarrow> str list" where
  \<comment> \<open>\<open>all_tags = set(); for drill in drills: all_tags.update(drill['tags'])\<close>, then
      \<open>sorted(list(all_tags))\<close>.\<close>
  "get_all_tags drills =
     sorted_list_of_set (fold (\<lambda>drill all_tags. all_tags \<union> set (tags drill)) drills {})"

section \<open>The generated page: filter state and rendering\<close>

text \<open>
  \<open>generate_html\<close> embeds \<open>drills\<close> and \<open>all_tags\<close> in a fixed template; the artifact is
  modelled by the payload it carries.
\<close>

record artifact =
  embedded_drills :: "drill list"
  embedded_allTags :: "str list"

definition generate_html :: "drill list \<Rightarrow> str list \<Rightarrow> artifact" where
  "generate_html drills all_tags = \<lparr>embedded_drills = drills, embedded_allTags = all_tags\<rparr>"

text \<open>
  The script's state: the two variables \<open>activeFilters\<close> (a JavaScript \<open>Set\<close>, which
  keeps its elements in insertion order and holds none twice) and \<open>searchTerm\<close>, and
  what the handlers write to the document: the display of \<open>drillGrid\<close> and
  \<open>noResults\<close>, the entries of \<open>drillGrid\<close>, and the two statistics.
\<close>

record page =
  activeFilters :: "str list"
  searchTerm :: str
  drillGrid_display :: bool
  noResults_display :: bool
  drillGrid_items :: "drill list"
  resultsCount :: nat
  activeFiltersSpan :: "str list"

definition set_has :: "str list \<Rightarrow> str \<Rightarrow> bool" where
  "set_has s t \<longleftrightarrow> t \<in> set s"

definition set_delete :: "str list \<Rightarrow> str \<Rightarrow> str list" where
  "set_delete s t = removeAll t s"

definition set_add :: "str list \<Rightarrow> str \<Rightarrow> str list" where
  "set_add s t = (if t \<in> set s then s else s @ [t])"

definition matchesSearch :: "casing \<Rightarrow> page \<Rightarrow> drill \<Rightarrow> bool" where
  \<comment> \<open>\<open>ucd\<close> is the database of the engine that runs the page.\<close>
  "matchesSearch ucd st drill \<longleftrightarrow>
     searchTerm st = [] \<or>
     str_includes (toLowerCase ucd (name drill)) (searchTerm st) \<or>
     list_ex (\<lambda>tag. str_includes (toLowerCase ucd tag) (searchTerm st)) (tags drill)"

definition matchesTags :: "page \<Rightarrow> drill \<Rightarrow> bool" where
  "matchesTags st drill \<longleftrightarrow>
     length (activeFilters st) = 0 \<or>
     list_all (\<lambda>filter. filter \<in> set (tags drill)) (activeFilters st)"

definition filteredDrills :: "casing \<Rightarrow> drill list \<Rightarrow> page \<Rightarrow> drill list" where
  "filteredDrills ucd drills st =
     filter (\<lambda>drill. matchesSearch ucd st drill \<and> matchesTags st drill) drills"

definition updateStats :: "nat \<Rightarrow> page \<Rightarrow> page" where
  "updateStats count st = st\<lparr>resultsCount := count, activeFiltersSpan := activeFilters st\<rparr>"

definition renderDrills :: "casing \<Rightarrow> drill list \<Rightarrow> page \<Rightarrow> page" where
  \<comment> \<open>With no match the listing is hidden and its entries are left as they were.\<close>
  "renderDrills ucd drills st =
     (let shown = filteredDrills ucd drills st;
          st' = (if length shown = 0
                 then st\<lparr>drillGrid_display := False, noResults_display := True\<rparr>
                 else st\<lparr>drillGrid_display := True, noResults_display := False,
                         drillGrid_items := shown\<rparr>)
      in updateStats (length shown) st')"

definition toggleFilter :: "casing \<Rightarrow> drill list \<Rightarrow> str \<Rightarrow> page \<Rightarrow> page" where
  \<comment> \<open>\<open>updateTagStyles\<close> only restyles the tag buttons from \<open>activeFilters\<close>.\<close>
  "toggleFilter ucd drills tag st =
     renderDrills ucd drills
       (if set_has (activeFilters st) tag
        then st\<lparr>activeFilters := set_delete (activeFilters st) tag\<rparr>
        else st\<lparr>activeFilters := set_add (activeFilters st) tag\<rparr>)"

definition clearAllFilters :: "casing \<Rightarrow> drill list \<Rightarrow> page \<Rightarrow> page" where
  \<comment> \<open>It also empties the search box and restyles the tag buttons.\<close>
  "clearAllFilters ucd drills st =
     renderDrills ucd drills (st\<lparr>activeFilters := [], searchTerm := []\<rparr>)"

definition searchBox_input :: "casing \<Rightarrow> drill list \<Rightarrow> str \<Rightarrow> page \<Rightarrow> page" where
  \<comment> \<open>The \<open>input\<close> listener of \<open>setupEventListeners\<close>; \<open>v\<close> is \<open>e.target.value\<close>.\<close>
  "searchBox_input ucd drills v st =
     renderDrills ucd drills (st\<lparr>searchTerm := toLowerCase ucd v\<rparr>)"

definition init :: "casing \<Rightarrow> drill list \<Rightarrow> page" where
  \<comment> \<open>The state declarations, the document as generated, and the call of \<open>init()\<close>.\<close>
  "init ucd drills =
     renderDrills ucd drills
       \<lparr>activeFilters = [], searchTerm = [], drillGrid_display = True,
        noResults_display = False, drillGrid_items = [], resultsCount = length drills,
        activeFiltersSpan = []\<rparr>"

definition displayed :: "page \<Rightarrow> drill \<Rightarrow> bool" where
  \<comment> \<open>A drill is on screen when the listing is visible and has an entry for it.\<close>
  "displayed st drill \<longleftrightarrow> drillGrid_display st \<and> drill \<in> set (drillGrid_items st)"

section \<open>The run: \<open>main\<close>\<close>

datatype message =
    Error_not_found
  | Reading
  | Found_drills nat
  | Extracting
  | Found_tags nat
  | Generating
  | Writing
  | Success
  | Processed nat nat
  | Open_hint

record run =
  console :: "message list"
  written :: "artifact option"
  raised :: "error option"

definition main :: "row list option \<Rightarrow> run" where
  \<comment> \<open>The argument is the input file: \<open>None\<close> when \<open>Path(csv_file).exists()\<close> is false,
      else the rows \<open>csv.reader\<close> yields. A file that cannot be opened, decoded or split
      into rows, and an output that cannot be written, are not modelled: the library
      raises there too. An exception leaves \<open>main\<close> uncaught.\<close>
  "main csv_file =
     (case csv_file of
        None \<Rightarrow> \<lparr>console = [Error_not_found], written = None, raised = None\<rparr>
      | Some reader \<Rightarrow>
          (case parse_csv reader of
             Inl e \<Rightarrow> \<lparr>console = [Reading], written = None, raised = Some e\<rparr>
           | Inr drills \<Rightarrow>
               (let all_tags = get_all_tags drills;
                    html_content = generate_html drills all_tags
                in \<lparr>console = [Reading, Found_drills (length drills), Extracting,
                                Found_tags (length all_tags), Generating, Writing, Success,
                                Processed (length drills) (length all_tags), Open_hint],
                    written = Some html_content, raised = None\<rparr>)))"

section \<open>The specification's notions\<close>

text \<open>
  The definitions of this section follow the words of the specification; the theorems
  below compare them with the program.
\<close>

definition trimmed :: "str \<Rightarrow> bool" where
  \<comment> \<open>Non-empty, with no leading and no trailing whitespace.\<close>
  "trimmed s \<longleftrightarrow> s \<noteq> [] \<and> \<not> isspace (hd s) \<and> \<not> isspace (last s)"

definition spec_pieces :: "str \<Rightarrow> str list" where
  \<comment> \<open>Split on commas, trim each piece, drop the empty pieces.\<close>
  "spec_pieces text = filter (\<lambda>p. p \<noteq> []) (map strip (split_on comma text))"

definition spec_tags :: "str \<Rightarrow> str \<Rightarrow> str list" where
  \<comment> \<open>The union of the two sets of pieces, sorted ascending.\<close>
  "spec_tags theme_text sub_category_text =
     sorted_list_of_set (set (spec_pieces theme_text) \<union> set (spec_pieces sub_category_text))"

definition same_up_to_case :: "casing \<Rightarrow> nat \<Rightarrow> nat \<Rightarrow> bool" where
  \<comment> \<open>Two characters that differ at most in case: the database gives them the same
      lowercase.\<close>
  "same_up_to_case ucd c d \<longleftrightarrow> lower_cp ucd c = lower_cp ucd d"






definition plain :: "casing \<Rightarrow> str \<Rightarrow> bool" where
  \<comment> \<open>A string that is lowercased code unit by code unit: it has no high surrogate,
      no U+0130 and no U+03A3, and the lowercase of each unit is one unit.\<close>
  "plain ucd s =
     list_all (\<lambda>c. (c < 55296 \<or> 56320 \<le> c) \<and> c \<noteq> 304 \<and> c \<noteq> 931 \<and> lower_cp ucd c < 65536) s"

section \<open>The specification's example\<close>

definition row_breakout :: row where
  "row_breakout =
     [lit ''Breakout Drill'', lit ''x'', lit ''Skating, Passing'', lit ''Edges'',
      lit ''http://a'']"

definition row_warmup :: row where
  "row_warmup = [lit ''Warmup'', lit ''x'', lit ''Skating'', [], []]"

definition drill_breakout :: drill where
  "drill_breakout =
     \<lparr>name = lit ''Breakout Drill'', link = lit ''http://a'',
      tags = [lit ''Edges'', lit ''Passing'', lit ''Skating''],
      theme = lit ''Skating, Passing'', sub_category = lit ''Edges''\<rparr>"

definition drill_warmup :: drill where
  "drill_warmup =
     \<lparr>name = lit ''Warmup'', link = [], tags = [lit ''Skating''],
      theme = lit ''Skating'', sub_category = []\<rparr>"

section \<open>A Greek name\<close>

definition greek_entries :: casing where
  \<comment> \<open>The entries of the Unicode Character Database for U+0391, U+03A3, U+03B1, U+03C2
      and U+03C3: the capitals map to the small letters, the five are cased and none
      is case-ignorable. The other entries are not read below.\<close>
  "greek_entries =
     \<lparr>lower_of = (\<lambda>c. if c = 913 then 945 else if c = 931 then 963 else c),
      cased = (\<lambda>c. c = 913 \<or> c = 931 \<or> c = 945 \<or> c = 962 \<or> c = 963),
      case_ignorable = (\<lambda>c. False)\<rparr>"


section \<open>Facts about strings\<close>

lemma comma_not_space: "\<not> isspace comma"
  by (simp add: isspace_def comma_def)

lemma split_on_not_Nil: "split_on sep s \<noteq> []"
  by (induction s) (auto split: list.splits)

lemma split_on_prepend:
  "sep \<notin> set w \<Longrightarrow> split_on sep (w @ s) = (w @ hd (split_on sep s)) # tl (split_on sep s)"
proof (induction w)
  case Nil
  then show ?case using split_on_not_Nil [of sep s] by (cases "split_on sep s") auto
next
  case (Cons c w)
  then show ?case by simp
qed

lemma split_on_append:
  "sep \<notin> set w \<Longrightarrow>
   split_on sep (s @ w) = butlast (split_on sep s) @ [last (split_on sep s) @ w]"
proof (induction s)
  case Nil
  then show ?case using split_on_prepend [of sep w "[]"] by simp
next
  case (Cons c s)
  then show ?case
    using split_on_not_Nil [of sep s]
    by (cases "split_on sep s") (auto split: list.splits)
qed

lemma strip_prepend_space: "\<forall>c\<in>set w. isspace c \<Longrightarrow> strip (w @ s) = strip s"
  by (simp add: strip_def dropWhile_append)

lemma strip_append_space:
  assumes "\<forall>c\<in>set w. isspace c"
  shows "strip (s @ w) = strip s"
proof (cases "\<forall>c\<in>set s. isspace c")
  case True
  have a: "dropWhile isspace (s @ w) = []" using True assms by auto
  have b: "dropWhile isspace s = []" using True by auto
  show ?thesis unfolding strip_def a b by simp
next
  case False
  then have "dropWhile isspace (s @ w) = dropWhile isspace s @ w"
    by (auto simp: dropWhile_append)
  with assms show ?thesis by (simp add: strip_def dropWhile_append)
qed

lemma last_dropWhile_eq: "dropWhile P xs \<noteq> [] \<Longrightarrow> last (dropWhile P xs) = last xs"
proof -
  assume ne: "dropWhile P xs \<noteq> []"
  have "last xs = last (takeWhile P xs @ dropWhile P xs)" by simp
  also have "\<dots> = last (dropWhile P xs)" using ne by (simp only: last_append if_False)
  finally show ?thesis by simp
qed

lemma strip_last:
  assumes "strip s \<noteq> []"
  shows "\<not> isspace (last (strip s))"
proof -
  let ?r = "dropWhile isspace (rev (dropWhile isspace s))"
  from assms have ne: "?r \<noteq> []" by (simp add: strip_def)
  have "last (strip s) = hd ?r" using ne by (simp add: strip_def last_rev)
  with ne show ?thesis using hd_dropWhile [of isspace "rev (dropWhile isspace s)"] by simp
qed

lemma strip_hd:
  assumes "strip s \<noteq> []"
  shows "\<not> isspace (hd (strip s))"
proof -
  let ?d = "dropWhile isspace s"
  let ?r = "dropWhile isspace (rev ?d)"
  from assms have ne: "?r \<noteq> []" by (simp add: strip_def)
  then have d: "?d \<noteq> []" by (cases "?d = []") simp_all
  have "hd (strip s) = last ?r" using ne by (simp add: strip_def hd_rev)
  also have "\<dots> = last (rev ?d)" using ne by (rule last_dropWhile_eq)
  also have "\<dots> = hd ?d" using d by (simp add: last_rev)
  finally show ?thesis using d hd_dropWhile [of isspace s] by simp
qed

lemma strip_decompose:
  "\<exists>w1 w2. (\<forall>c\<in>set w1. isspace c) \<and> (\<forall>c\<in>set w2. isspace c) \<and> s = w1 @ strip s @ w2"
proof -
  let ?d = "dropWhile isspace s"
  let ?w1 = "takeWhile isspace s"
  let ?w2 = "rev (takeWhile isspace (rev ?d))"
  have "?d = rev (takeWhile isspace (rev ?d) @ dropWhile isspace (rev ?d))"
    by (simp only: takeWhile_dropWhile_id rev_rev_ident)
  then have "?d = strip s @ ?w2" by (simp only: rev_append strip_def)
  moreover have "s = ?w1 @ ?d" by simp
  ultimately have "s = ?w1 @ strip s @ ?w2" by simp
  moreover have "\<forall>c\<in>set ?w1. isspace c" by (auto dest: set_takeWhileD)
  moreover have "\<forall>c\<in>set ?w2. isspace c" by (auto dest: set_takeWhileD)
  ultimately show ?thesis by blast
qed


lemma map_strip_split_on:
  assumes w1: "\<forall>c\<in>set w1. isspace c" and w2: "\<forall>c\<in>set w2. isspace c"
  shows "map strip (split_on comma (w1 @ s @ w2)) = map strip (split_on comma s)"
proof -
  from w1 w2 comma_not_space have c1: "comma \<notin> set w1" and c2: "comma \<notin> set w2" by auto
  let ?Y = "split_on comma s"
  let ?X = "split_on comma (s @ w2)"
  have Y: "?Y \<noteq> []" and X: "?X \<noteq> []" by (rule split_on_not_Nil)+
  have "map strip ?X = map strip (butlast ?Y) @ [strip (last ?Y @ w2)]"
    by (simp add: split_on_append [OF c2])
  also have "\<dots> = map strip (butlast ?Y @ [last ?Y])"
    by (simp add: strip_append_space [OF w2])
  also have "\<dots> = map strip ?Y" using Y by simp
  finally have right: "map strip ?X = map strip ?Y" .
  have "map strip (split_on comma (w1 @ s @ w2)) = strip (w1 @ hd ?X) # map strip (tl ?X)"
    by (simp add: split_on_prepend [OF c1])
  also have "\<dots> = map strip (hd ?X # tl ?X)"
    by (simp add: strip_prepend_space [OF w1])
  also have "\<dots> = map strip ?X" using X by simp
  finally show ?thesis using right by simp
qed

lemma strip_Nil [simp]: "strip [] = []"
  by (simp add: strip_def)







lemma code_points_plain: "\<forall>c\<in>set s. c < 55296 \<or> 56320 \<le> c \<Longrightarrow> code_points s = s"
  by (induction s rule: code_points.induct) auto

lemma lower_from_plain:
  "\<forall>c\<in>set cps. c \<noteq> 304 \<and> c \<noteq> 931 \<and> lower_cp ucd c < 65536 \<Longrightarrow>
   lower_from ucd before cps = map (lower_cp ucd) cps"
  by (induction cps arbitrary: before) (simp_all add: utf16_def)

lemma toLowerCase_plain: "plain ucd s \<Longrightarrow> toLowerCase ucd s = map (lower_cp ucd) s"
proof -
  assume p: "plain ucd s"
  then have "code_points s = s"
    by (intro code_points_plain) (auto simp: plain_def list_all_iff)
  moreover from p have "lower_from ucd [] s = map (lower_cp ucd) s"
    by (intro lower_from_plain) (auto simp: plain_def list_all_iff)
  ultimately show ?thesis by (simp add: toLowerCase_def)
qed



section \<open>Facts about extraction\<close>

lemma parse_categories_strip: "parse_categories (strip field) = spec_pieces field"
proof -
  obtain w1 w2 where w: "\<forall>c\<in>set w1. isspace c" "\<forall>c\<in>set w2. isspace c"
    and f: "field = w1 @ strip field @ w2"
    using strip_decompose [of field] by blast
  have eq: "map strip (split_on comma field) = map strip (split_on comma (strip field))"
    using map_strip_split_on [OF w, of "strip field"] f by simp
  show ?thesis
  proof (cases "strip field = []")
    case True
    then show ?thesis by (simp add: parse_categories_def spec_pieces_def eq)
  next
    case False
    then show ?thesis
      by (simp add: parse_categories_def spec_pieces_def eq filter_map comp_def)
  qed
qed

lemma fold_insert_set: "fold insert xs A = set xs \<union> A"
  by (induction xs arbitrary: A) auto

lemma fold_update_tags:
  "fold (\<lambda>drill all_tags. all_tags \<union> set (tags drill)) ds A = A \<union> (\<Union>d\<in>set ds. set (tags d))"
  by (induction ds arbitrary: A) auto

lemma parse_rows_eq: "parse_rows acc rows = acc @ map make_drill (filter accepted rows)"
  by (induction rows arbitrary: acc) auto

lemma tags_make_drill:
  "length row \<ge> 5 \<Longrightarrow> tags (make_drill row) = spec_tags (row ! 2) (row ! 3)"
  by (simp add: make_drill_def Let_def spec_tags_def fold_insert_set parse_categories_strip
      Un_commute)


lemma accepted_iff: "accepted row \<longleftrightarrow> length row \<ge> 5 \<and> strip (row ! 0) \<noteq> []"
  by (simp add: accepted_def)

lemma parse_csv_header: "parse_csv (header # rows) = Inr (map make_drill (filter accepted rows))"
  by (simp add: parse_csv_def parse_rows_eq)

lemma trimmed_strip: "strip s \<noteq> [] \<Longrightarrow> trimmed (strip s)"
  by (simp add: trimmed_def strip_hd strip_last)

lemma parse_categories_trimmed: "t \<in> set (parse_categories field) \<Longrightarrow> trimmed t"
  by (auto simp: parse_categories_def trimmed_strip split: if_splits)

lemma set_tags_make_drill:
  "set (tags (make_drill row)) =
     set (parse_categories (if length row > 2 then strip (row ! 2) else [])) \<union>
     set (parse_categories (if length row > 3 then strip (row ! 3) else []))"
  by (simp add: make_drill_def Let_def fold_insert_set Un_commute)

lemma make_drill_trimmed:
  assumes "accepted row"
  shows "trimmed (name (make_drill row))" and "\<forall>t\<in>set (tags (make_drill row)). trimmed t"
proof -
  from assms show "trimmed (name (make_drill row))"
    by (simp add: accepted_iff make_drill_def Let_def trimmed_strip)
  show "\<forall>t\<in>set (tags (make_drill row)). trimmed t"
    unfolding set_tags_make_drill by (blast intro: parse_categories_trimmed)
qed

lemma set_get_all_tags: "set (get_all_tags drills) = (\<Union>d\<in>set drills. set (tags d))"
  by (simp add: get_all_tags_def fold_update_tags)

lemma get_all_tags_sort: "get_all_tags drills = sort (remdups (concat (map tags drills)))"
  by (simp add: get_all_tags_def fold_update_tags flip: sorted_list_of_set_sort_remdups)


text \<open>
  Claim C2. After the header, each row with at least five fields and a first field that
  is not empty once trimmed gives one drill, the other rows give none, and the drills
  come in the order of their rows.
\<close>

theorem parse_csv_accepted_rows_in_order:
  "parse_csv (header # rows) =
     Inr (map make_drill (filter (\<lambda>row. length row \<ge> 5 \<and> strip (row ! 0) \<noteq> []) rows))"
proof -
  have "accepted = (\<lambda>row. length row \<ge> 5 \<and> strip (row ! 0) \<noteq> [])"
    by (rule ext) (rule accepted_iff)
  then show ?thesis by (simp add: parse_csv_header)
qed

theorem parse_csv_accepted_rows_in_order_witness:
  "parse_csv [[], row_breakout, [[], lit ''x'', lit ''A'', lit ''B'', lit ''link''],
      [lit ''Short'', lit ''x'', lit ''A''], row_warmup] =
     Inr [make_drill row_breakout, make_drill row_warmup]"
  using parse_csv_accepted_rows_in_order
    [of "[]" "[row_breakout, [[], lit ''x'', lit ''A'', lit ''B'', lit ''link''],
      [lit ''Short'', lit ''x'', lit ''A''], row_warmup]"]
  by (simp add: row_breakout_def row_warmup_def lit_def strip_def isspace_def)

text \<open>
  Claim C3. For an accepted row the tags are the pieces of the theme field and of the
  sub-category field (split on commas, trimmed, the empty ones dropped), united and
  sorted ascending in the lexicographic order of the code points; the list is sorted
  and holds no string twice. The program trims each field before it splits it and
  skips an empty field; neither changes the pieces.
\<close>

theorem tags_derivation:
  assumes "accepted row"
  shows "tags (make_drill row) = spec_tags (row ! 2) (row ! 3) \<and>
         distinct (tags (make_drill row)) \<and> sorted (tags (make_drill row))"
proof -
  from assms have "length row \<ge> 5" by (simp add: accepted_iff)
  then have "tags (make_drill row) = spec_tags (row ! 2) (row ! 3)"
    by (rule tags_make_drill)
  moreover have "distinct (spec_tags (row ! 2) (row ! 3))" and "sorted (spec_tags (row ! 2) (row ! 3))"
    by (simp_all add: spec_tags_def)
  ultimately show ?thesis by simp
qed

theorem tags_derivation_witness:
  "accepted row_breakout \<and>
   tags (make_drill row_breakout) = [lit ''Edges'', lit ''Passing'', lit ''Skating''] \<and>
   spec_tags (lit ''Skating, Passing'') (lit ''Edges'') =
     [lit ''Edges'', lit ''Passing'', lit ''Skating'']"
proof -
  have a: "accepted row_breakout"
    by (simp add: accepted_def row_breakout_def lit_def strip_def isspace_def)
  have t: "tags (make_drill row_breakout) = [lit ''Edges'', lit ''Passing'', lit ''Skating'']"
    by (simp add: make_drill_def Let_def row_breakout_def lit_def strip_def isspace_def
        parse_categories_def comma_def sorted_list_of_set_sort_remdups [symmetric])
  from tags_derivation [OF a] t a show ?thesis by (simp add: row_breakout_def)
qed

text \<open>
  Claim C4. The tag vocabulary holds exactly the strings that occur among the tags of
  some drill, each once, sorted ascending.
\<close>

theorem get_all_tags_vocabulary:
  "(t \<in> set (get_all_tags drills) \<longleftrightarrow> (\<exists>d \<in> set drills. t \<in> set (tags d))) \<and>
   distinct (get_all_tags drills) \<and> sorted (get_all_tags drills)"
  by (simp add: set_get_all_tags) (simp add: get_all_tags_def)

theorem get_all_tags_vocabulary_witness:
  "lit ''Passing'' \<in> set (get_all_tags [drill_breakout, drill_warmup]) \<and>
   lit ''Shooting'' \<notin> set (get_all_tags [drill_breakout, drill_warmup]) \<and>
   distinct (get_all_tags [drill_breakout, drill_warmup]) \<and>
   sorted (get_all_tags [drill_breakout, drill_warmup])"
  using get_all_tags_vocabulary [of "lit ''Passing''" "[drill_breakout, drill_warmup]"]
    get_all_tags_vocabulary [of "lit ''Shooting''" "[drill_breakout, drill_warmup]"]
  by (simp add: drill_breakout_def drill_warmup_def lit_def)

text \<open>
  Claim C10. Every drill that extraction produces has a name that is not empty and
  neither starts nor ends with whitespace, and so has each of its tags, and each string
  of the vocabulary of the produced drills.
\<close>

theorem extraction_trimmed:
  assumes "parse_csv reader = Inr drills" and "d \<in> set drills"
  shows "trimmed (name d) \<and> (\<forall>t \<in> set (tags d). trimmed t) \<and>
         (\<forall>t \<in> set (get_all_tags drills). trimmed t)"
proof -
  from assms(1) obtain header rows where r: "reader = header # rows"
    by (cases reader) (simp_all add: parse_csv_def)
  with assms(1) have ds: "drills = map make_drill (filter accepted rows)"
    by (simp add: parse_csv_header)
  have each: "trimmed (name e) \<and> (\<forall>t \<in> set (tags e). trimmed t)" if "e \<in> set drills" for e
  proof -
    from that ds obtain row where "accepted row" and "e = make_drill row" by auto
    then show ?thesis using make_drill_trimmed by simp
  qed
  then have "\<forall>t \<in> set (get_all_tags drills). trimmed t"
    by (auto simp: set_get_all_tags)
  with each [OF assms(2)] show ?thesis by simp
qed

theorem extraction_trimmed_witness:
  "parse_csv [[], [lit ''  Warmup '', lit ''x'', lit '' Skating ,, Edges  '', [], []]] =
     Inr [\<lparr>name = lit ''Warmup'', link = [], tags = [lit ''Edges'', lit ''Skating''],
           theme = lit ''Skating ,, Edges'', sub_category = []\<rparr>] \<and>
   trimmed (lit ''Warmup'') \<and> trimmed (lit ''Edges'') \<and> trimmed (lit ''Skating'')"
proof -
  let ?d = "\<lparr>name = lit ''Warmup'', link = [], tags = [lit ''Edges'', lit ''Skating''],
           theme = lit ''Skating ,, Edges'', sub_category = []\<rparr>"
  have p: "parse_csv [[], [lit ''  Warmup '', lit ''x'', lit '' Skating ,, Edges  '', [], []]] =
     Inr [?d]"
    by (simp add: parse_csv_def accepted_def make_drill_def Let_def lit_def strip_def
        isspace_def parse_categories_def comma_def sorted_list_of_set_sort_remdups [symmetric])
  have m: "?d \<in> set [?d]" by simp
  from extraction_trimmed [OF p m] p show ?thesis by simp
qed

section \<open>Filtering\<close>

lemma same_up_to_case_ascii:
  assumes "c < 128" and "d < 128"
  shows "same_up_to_case ucd c d \<longleftrightarrow>
         c = d \<or> (65 \<le> c \<and> c \<le> 90 \<and> d = c + 32) \<or> (65 \<le> d \<and> d \<le> 90 \<and> c = d + 32)"
  using assms by (auto simp: same_up_to_case_def lower_cp_def)




lemma toLowerCase_ascii:
  assumes "list_all (\<lambda>c. c < 128) s"
  shows "toLowerCase ucd s = map (\<lambda>c. if 65 \<le> c \<and> c \<le> 90 then c + 32 else c) s"
proof -
  from assms have "plain ucd s"
    by (auto simp: plain_def list_all_iff lower_cp_def)
  then have "toLowerCase ucd s = map (lower_cp ucd) s" by (rule toLowerCase_plain)
  also from assms have "\<dots> = map (\<lambda>c. if 65 \<le> c \<and> c \<le> 90 then c + 32 else c) s"
    by (auto simp: list_all_iff lower_cp_def)
  finally show ?thesis .
qed


lemma updateStats_fields [simp]:
  "activeFilters (updateStats n st) = activeFilters st"
  "searchTerm (updateStats n st) = searchTerm st"
  "drillGrid_display (updateStats n st) = drillGrid_display st"
  "noResults_display (updateStats n st) = noResults_display st"
  "drillGrid_items (updateStats n st) = drillGrid_items st"
  "resultsCount (updateStats n st) = n"
  by (simp_all add: updateStats_def)

lemma renderDrills_vars [simp]:
  "activeFilters (renderDrills ucd drills st) = activeFilters st"
  "searchTerm (renderDrills ucd drills st) = searchTerm st"
  by (simp_all add: renderDrills_def Let_def)


lemma clearAllFilters_searchTerm:
  "searchTerm (clearAllFilters ucd drills st) = toLowerCase ucd []"
  by (simp add: clearAllFilters_def toLowerCase_def)

lemma toggleFilter_activeFilters:
  "activeFilters (toggleFilter ucd drills tag st) =
     (if tag \<in> set (activeFilters st) then removeAll tag (activeFilters st)
      else activeFilters st @ [tag])"
  by (simp add: toggleFilter_def set_has_def set_delete_def set_add_def)

lemma toggleFilter_searchTerm: "searchTerm (toggleFilter ucd drills tag st) = searchTerm st"
  by (simp add: toggleFilter_def)

lemma clearAllFilters_empty:
  "searchTerm (clearAllFilters ucd drills st) = [] \<and>
   activeFilters (clearAllFilters ucd drills st) = []"
  by (simp add: clearAllFilters_def)

lemma init_empty: "searchTerm (init ucd drills) = [] \<and> activeFilters (init ucd drills) = []"
  by (simp add: init_def)

lemma renderDrills_listing:
  "filteredDrills ucd drills st \<noteq> [] \<Longrightarrow>
   drillGrid_display (renderDrills ucd drills st) \<and>
   drillGrid_items (renderDrills ucd drills st) = filteredDrills ucd drills st \<and>
   resultsCount (renderDrills ucd drills st) = length (filteredDrills ucd drills st)"
  by (simp add: renderDrills_def Let_def)

lemma filteredDrills_renderDrills [simp]:
  "filteredDrills ucd drills (renderDrills ucd' drills' st) = filteredDrills ucd drills st"
  by (simp add: filteredDrills_def matchesSearch_def matchesTags_def)

lemma displayed_renderDrills:
  "displayed (renderDrills ucd drills st) drill \<longleftrightarrow> drill \<in> set (filteredDrills ucd drills st)"
  by (auto simp: displayed_def renderDrills_def Let_def)



lemma lower_alpha_sigma: "toLowerCase greek_entries [913, 931] = [945, 962]"
  by (simp add: toLowerCase_def final_sigma_def utf16_def lower_cp_def greek_entries_def)

lemma lower_sigma: "toLowerCase greek_entries [931] = [963]"
  by (simp add: toLowerCase_def final_sigma_def utf16_def greek_entries_def)




lemma filteredDrills_two_passes:
  "filteredDrills ucd drills st =
     filter (matchesSearch ucd st) (filter (matchesTags st) drills)"
  by (simp add: filteredDrills_def conj_commute)

text \<open>
  Claim C7. The two axes commute: keeping the drills that match the tags and then those
  that match the search gives the same list as the other order, and both give the list
  \<open>renderDrills\<close> computes in one pass.
\<close>

theorem filter_axes_commute:
  "filter (matchesSearch ucd st) (filter (matchesTags st) drills) =
     filter (matchesTags st) (filter (matchesSearch ucd st) drills) \<and>
   filter (matchesSearch ucd st) (filter (matchesTags st) drills) = filteredDrills ucd drills st"
proof
  show "filter (matchesSearch ucd st) (filter (matchesTags st) drills) =
        filter (matchesTags st) (filter (matchesSearch ucd st) drills)"
    by (induction drills) simp_all
  show "filter (matchesSearch ucd st) (filter (matchesTags st) drills) =
        filteredDrills ucd drills st"
    by (simp add: filteredDrills_two_passes)
qed

theorem filter_axes_commute_witness:
  "filter (matchesSearch greek_entries
            (toggleFilter greek_entries [drill_breakout, drill_warmup] (lit ''Passing'')
              (init greek_entries [drill_breakout, drill_warmup])))
     (filter (matchesTags (toggleFilter greek_entries [drill_breakout, drill_warmup]
                (lit ''Passing'') (init greek_entries [drill_breakout, drill_warmup])))
        [drill_breakout, drill_warmup]) = [drill_breakout] \<and>
   filter (matchesTags (toggleFilter greek_entries [drill_breakout, drill_warmup]
             (lit ''Passing'') (init greek_entries [drill_breakout, drill_warmup])))
     (filter (matchesSearch greek_entries
               (toggleFilter greek_entries [drill_breakout, drill_warmup] (lit ''Passing'')
                 (init greek_entries [drill_breakout, drill_warmup])))
        [drill_breakout, drill_warmup]) = [drill_breakout]"
proof -
  let ?g = greek_entries
  let ?ds = "[drill_breakout, drill_warmup]"
  let ?st = "toggleFilter ?g ?ds (lit ''Passing'') (init ?g ?ds)"
  have "filteredDrills ?g ?ds ?st = [drill_breakout]"
    by (simp add: toggleFilter_def init_def set_has_def set_add_def)
       (simp add: filteredDrills_def matchesSearch_def matchesTags_def
        drill_breakout_def drill_warmup_def lit_def)
  with filter_axes_commute [of ?g ?st ?ds] show ?thesis by metis
qed

text \<open>
  Claim C8. With an empty search term and no active tag the filter is the identity:
  \<open>renderDrills\<close> keeps the whole list, and every drill of the page is on screen. This
  is the state of \<open>init\<close> and of \<open>clearAllFilters\<close>.
\<close>

theorem empty_filter_identity:
  assumes "searchTerm st = []" and "activeFilters st = []"
  shows "filteredDrills ucd drills st = drills \<and>
         (\<forall>drill \<in> set drills. displayed (renderDrills ucd drills st) drill)"
proof -
  have "filteredDrills ucd drills st = drills"
    using assms by (simp add: filteredDrills_def matchesSearch_def matchesTags_def)
  then show ?thesis by (simp add: displayed_renderDrills)
qed

theorem empty_filter_identity_witness:
  "searchTerm (clearAllFilters greek_entries [drill_breakout, drill_warmup]
      (searchBox_input greek_entries [drill_breakout, drill_warmup] (lit ''zzz'')
        (init greek_entries [drill_breakout, drill_warmup]))) = [] \<and>
   activeFilters (clearAllFilters greek_entries [drill_breakout, drill_warmup]
      (searchBox_input greek_entries [drill_breakout, drill_warmup] (lit ''zzz'')
        (init greek_entries [drill_breakout, drill_warmup]))) = [] \<and>
   drillGrid_items (clearAllFilters greek_entries [drill_breakout, drill_warmup]
      (searchBox_input greek_entries [drill_breakout, drill_warmup] (lit ''zzz'')
        (init greek_entries [drill_breakout, drill_warmup])))
     = [drill_breakout, drill_warmup] \<and>
   displayed (clearAllFilters greek_entries [drill_breakout, drill_warmup]
      (searchBox_input greek_entries [drill_breakout, drill_warmup] (lit ''zzz'')
        (init greek_entries [drill_breakout, drill_warmup])))
     drill_warmup"
proof -
  let ?g = greek_entries
  let ?ds = "[drill_breakout, drill_warmup]"
  let ?st = "(searchBox_input ?g ?ds (lit ''zzz'') (init ?g ?ds))\<lparr>activeFilters := [], searchTerm := []\<rparr>"
  have h1: "searchTerm ?st = []" and h2: "activeFilters ?st = []" by simp_all
  from empty_filter_identity [OF h1 h2, of ?g ?ds]
  have "filteredDrills ?g ?ds ?st = ?ds" and "displayed (renderDrills ?g ?ds ?st) drill_warmup"
    by simp_all
  then show ?thesis
    by (simp add: clearAllFilters_def renderDrills_def Let_def)
qed

lemma toggleFilter_distinct:
  "distinct (activeFilters st) \<Longrightarrow> distinct (activeFilters (toggleFilter ucd drills tag st))"
  by (simp add: toggleFilter_activeFilters distinct_removeAll)

text \<open>
  Claim C9. One call of \<open>toggleFilter\<close> removes the tag from the active set when it is
  there and adds it when it is not; two calls in a row give back the active set. (The
  \<open>Set\<close> keeps insertion order: a tag toggled off and on again is listed last.)
\<close>

theorem toggleFilter_involution:
  "set (activeFilters (toggleFilter ucd drills tag (toggleFilter ucd drills tag st))) =
     set (activeFilters st) \<and>
   set (activeFilters (toggleFilter ucd drills tag st)) =
     (if tag \<in> set (activeFilters st) then set (activeFilters st) - {tag}
      else insert tag (set (activeFilters st)))"
  by (auto simp: toggleFilter_activeFilters)

theorem toggleFilter_involution_witness:
  "activeFilters (toggleFilter greek_entries [drill_warmup] (lit ''Skating'')
     (init greek_entries [drill_warmup])) = [lit ''Skating''] \<and>
   set (activeFilters (toggleFilter greek_entries [drill_warmup] (lit ''Skating'')
     (toggleFilter greek_entries [drill_warmup] (lit ''Skating'')
       (init greek_entries [drill_warmup])))) = {}"
  using toggleFilter_involution
    [of greek_entries "[drill_warmup]" "lit ''Skating''" "init greek_entries [drill_warmup]"]
  by (simp add: toggleFilter_activeFilters init_def)

section \<open>The example of the specification\<close>

lemma example_parse:
  "parse_csv [header, row_breakout, row_warmup] = Inr [drill_breakout, drill_warmup]"
  by (simp add: parse_csv_def accepted_def make_drill_def Let_def row_breakout_def
      row_warmup_def drill_breakout_def drill_warmup_def lit_def strip_def isspace_def
      parse_categories_def comma_def sorted_list_of_set_sort_remdups [symmetric])

lemma example_vocabulary:
  "get_all_tags [drill_breakout, drill_warmup] = [lit ''Edges'', lit ''Passing'', lit ''Skating'']"
  by (simp add: get_all_tags_sort drill_breakout_def drill_warmup_def lit_def)

lemma example_search:
  "filteredDrills ucd [drill_breakout, drill_warmup]
     (searchBox_input ucd [drill_breakout, drill_warmup] (lit ''warm'')
        (init ucd [drill_breakout, drill_warmup])) =
   [drill_warmup]"
  by (simp add: searchBox_input_def init_def)
     (simp add: filteredDrills_def matchesSearch_def matchesTags_def
      drill_breakout_def drill_warmup_def lit_def toLowerCase_ascii)

lemma example_two_tags:
  "filteredDrills ucd [drill_breakout, drill_warmup]
     (toggleFilter ucd [drill_breakout, drill_warmup] (lit ''Passing'')
        (toggleFilter ucd [drill_breakout, drill_warmup] (lit ''Skating'')
           (init ucd [drill_breakout, drill_warmup]))) =
   [drill_breakout]"
  by (simp add: toggleFilter_def init_def set_has_def set_add_def lit_def)
     (simp add: filteredDrills_def matchesSearch_def matchesTags_def
      drill_breakout_def drill_warmup_def lit_def)

lemma example_one_tag:
  "filteredDrills ucd [drill_breakout, drill_warmup]
     (toggleFilter ucd [drill_breakout, drill_warmup] (lit ''Skating'')
        (init ucd [drill_breakout, drill_warmup])) =
   [drill_breakout, drill_warmup]"
  by (simp add: toggleFilter_def init_def set_has_def set_add_def)
     (simp add: filteredDrills_def matchesSearch_def matchesTags_def
      drill_breakout_def drill_warmup_def lit_def)

lemma listing_of:
  assumes "st' = renderDrills ucd drills st" and "filteredDrills ucd drills st' = shown"
    and "shown \<noteq> []"
  shows "filteredDrills ucd drills st' = shown \<and> drillGrid_display st' \<and>
         \<not> noResults_display st' \<and> drillGrid_items st' = shown \<and>
         resultsCount st' = length shown"
proof -
  from assms(1,2) have "filteredDrills ucd drills st = shown" by simp
  with assms(1,3) have "drillGrid_display st' \<and> \<not> noResults_display st' \<and>
      drillGrid_items st' = shown \<and> resultsCount st' = length shown"
    by (simp add: renderDrills_def Let_def)
  with assms(2) show ?thesis by simp
qed

text \<open>
  Claim C6. For the two example rows the run embeds the two drills and the vocabulary
  Edges, Passing, Skating. On the page, typing \<open>warm\<close> leaves only Warmup; selecting
  Skating and then Passing leaves only Breakout Drill; selecting Skating alone leaves
  both. Each time the filter keeps the drills named, the listing is visible and shows
  them, and the count is theirs.
\<close>

theorem spec_example:
  "written (main (Some [header, row_breakout, row_warmup])) =
     Some \<lparr>embedded_drills = [drill_breakout, drill_warmup],
           embedded_allTags = [lit ''Edges'', lit ''Passing'', lit ''Skating'']\<rparr> \<and>
   (let st = searchBox_input ucd [drill_breakout, drill_warmup] (lit ''warm'')
               (init ucd [drill_breakout, drill_warmup])
    in filteredDrills ucd [drill_breakout, drill_warmup] st = [drill_warmup] \<and>
       drillGrid_display st \<and> \<not> noResults_display st \<and>
       drillGrid_items st = [drill_warmup] \<and> resultsCount st = 1) \<and>
   (let st = toggleFilter ucd [drill_breakout, drill_warmup] (lit ''Passing'')
               (toggleFilter ucd [drill_breakout, drill_warmup] (lit ''Skating'')
                  (init ucd [drill_breakout, drill_warmup]))
    in filteredDrills ucd [drill_breakout, drill_warmup] st = [drill_breakout] \<and>
       drillGrid_display st \<and> \<not> noResults_display st \<and>
       drillGrid_items st = [drill_breakout] \<and> resultsCount st = 1) \<and>
   (let st = toggleFilter ucd [drill_breakout, drill_warmup] (lit ''Skating'')
               (init ucd [drill_breakout, drill_warmup])
    in filteredDrills ucd [drill_breakout, drill_warmup] st = [drill_breakout, drill_warmup] \<and>
       drillGrid_display st \<and> \<not> noResults_display st \<and>
       drillGrid_items st = [drill_breakout, drill_warmup] \<and> resultsCount st = 2)"
proof -
  let ?ds = "[drill_breakout, drill_warmup]"
  have run: "written (main (Some [header, row_breakout, row_warmup])) =
     Some \<lparr>embedded_drills = ?ds,
           embedded_allTags = [lit ''Edges'', lit ''Passing'', lit ''Skating'']\<rparr>"
    by (simp add: main_def example_parse example_vocabulary generate_html_def Let_def)
  have search: "searchBox_input ucd ?ds (lit ''warm'') (init ucd ?ds) =
      renderDrills ucd ?ds ((init ucd ?ds)\<lparr>searchTerm := toLowerCase ucd (lit ''warm'')\<rparr>)"
    by (simp add: searchBox_input_def)
  have two: "\<exists>st. toggleFilter ucd ?ds (lit ''Passing'')
      (toggleFilter ucd ?ds (lit ''Skating'') (init ucd ?ds)) = renderDrills ucd ?ds st"
    by (simp add: toggleFilter_def [of _ _ "lit ''Passing''"]) blast
  have one: "\<exists>st. toggleFilter ucd ?ds (lit ''Skating'') (init ucd ?ds) = renderDrills ucd ?ds st"
    by (simp add: toggleFilter_def) blast
  from two obtain st2 where two': "toggleFilter ucd ?ds (lit ''Passing'')
      (toggleFilter ucd ?ds (lit ''Skating'') (init ucd ?ds)) = renderDrills ucd ?ds st2" ..
  from one obtain st1 where one': "toggleFilter ucd ?ds (lit ''Skating'') (init ucd ?ds) =
      renderDrills ucd ?ds st1" ..
  note a = listing_of [OF search example_search]
  note b = listing_of [OF two' example_two_tags]
  note c = listing_of [OF one' example_one_tag]
  from run a b c show ?thesis by (simp add: Let_def)
qed

theorem spec_example_witness:
  "written (main (Some [[lit ''Drill''], row_breakout, row_warmup])) =
     Some \<lparr>embedded_drills = [drill_breakout, drill_warmup],
           embedded_allTags = [lit ''Edges'', lit ''Passing'', lit ''Skating'']\<rparr> \<and>
   resultsCount (toggleFilter greek_entries [drill_breakout, drill_warmup] (lit ''Skating'')
     (init greek_entries [drill_breakout, drill_warmup])) = 2"
  using spec_example [of "[lit ''Drill'']" greek_entries] by (simp add: Let_def)

section \<open>The run\<close>

lemma main_missing_file:
  "main None = \<lparr>console = [Error_not_found], written = None, raised = None\<rparr>"
  by (simp add: main_def)

lemma main_with_header:
  "raised (main (Some (header # rows))) = None \<and>
   written (main (Some (header # rows))) =
     Some (generate_html (map make_drill (filter accepted rows))
       (get_all_tags (map make_drill (filter accepted rows))))"
  by (simp add: main_def parse_csv_header Let_def)

text \<open>
  Claim C5. A missing input file is reported and nothing is written
  (\<open>main_missing_file\<close>), and a file that is read as a header row and further rows is
  processed to the end whatever those rows are (\<open>main_with_header\<close>). A file with no
  row at all is not: \<open>next(reader)\<close> finds no header, \<open>StopIteration\<close> leaves \<open>main\<close>,
  and nothing is written.
\<close>

theorem main_empty_file:
  "main (Some []) = \<lparr>console = [Reading], written = None, raised = Some StopIteration\<rparr>"
  by (simp add: main_def parse_csv_def)

end
